theory Spec2Isabelle
  imports
    Complex_Main
    "HOL-Library.Multiset"
    "HOL-Library.Char_ord"
    "HOL-Library.List_Lexorder"
begin

section \<open>Data model of the picker (src/src/db.ts)\<close>

text \<open>
  The interfaces \<^verbatim>\<open>Movie\<close> and \<^verbatim>\<open>TvShow\<close> have the same fields, so one record serves
  both. A JavaScript \<^verbatim>\<open>number\<close> that holds a year or a runtime is an \<^typ>\<open>int\<close>, one that
  holds a rating or a match score is a \<^typ>\<open>rat\<close>: the catalog comes from JSON, which has
  no NaN and no infinity, and the sign of the difference of two finite doubles is the sign
  of their exact difference, which is all the comparators below look at. A string is a list
  of characters, each a code unit below 256, compared code unit by code unit. The field \<^verbatim>\<open>id\<close> is written \<open>id'\<close>.
\<close>

record Movie =
  id' :: string
  title :: string
  year :: int
  description :: string
  image :: "string option"
  runtime :: int
  premiered :: string
  genre :: "string list"
  tag :: "string list option"
  rating :: rat
  actors :: "string list"

type_synonym TvShow = Movie

text \<open>
  A row of the \<^verbatim>\<open>selected\<close> table. Its key is declared \<^verbatim>\<open>++id\<close>: the store's key
  generator numbers the rows.
\<close>

record Selected =
  id' :: nat
  refId :: string
  title :: string
  year :: int

text \<open>
  The \<^verbatim>\<open>selected\<close> table: its rows in ascending key order, which is the order
  \<^verbatim>\<open>toArray()\<close> returns them in, and the next key of the generator. A generated key is
  greater than every key handed out before, so a new row goes to the end.
\<close>

record SelectedTable =
  rows :: "Selected list"
  nextKey :: nat

text \<open>
  The database \<^verbatim>\<open>MoviesDatabase\<close>. A catalog table is the list of its rows in ascending
  order of the primary key \<^verbatim>\<open>id\<close>, with no key twice.
\<close>

record Database =
  movies :: "Movie list"
  tvShows :: "TvShow list"
  selected :: SelectedTable

text \<open>A search result of the index: \<^verbatim>\<open>score\<close> is optional in \<^verbatim>\<open>FuseResult\<close>.\<close>

record FuseResult =
  item :: Movie
  refIndex :: nat
  score :: "rat option"

text \<open>What a comparator hands to \<^verbatim>\<open>Array.prototype.sort\<close>: a finite number or NaN.\<close>

datatype number = NaN | Num rat

text \<open>The requests \<^verbatim>\<open>initializeDatabase\<close> and \<^verbatim>\<open>seedDatabase\<close> can send to the store.\<close>

datatype StoreCall = MoviesCount | TvShowsCount | MoviesBulkPut | TvShowsBulkPut

text \<open>The element \<^verbatim>\<open>#selected-box\<close> after \<^verbatim>\<open>updateSelectedBox\<close>.\<close>

record SelectedBox =
  heading :: string
  copyBtn :: bool
  li :: "string list"

section \<open>The store\<close>

text \<open>
  Every request is modelled for a store that accepts it, and one handler runs to its end
  before the next starts. \<^verbatim>\<open>put\<close> replaces the row with the same primary key or adds
  the row at its place in key order; \<^verbatim>\<open>bulkPut\<close> puts the rows one after the other.
\<close>

fun put :: "Movie \<Rightarrow> Movie list \<Rightarrow> Movie list" where
  "put x [] = [x]"
| "put x (y # ys) =
     (if Movie.id' x = Movie.id' y then x # ys
      else if Movie.id' x < Movie.id' y then x # y # ys
      else y # put x ys)"

definition bulkPut :: "Movie list \<Rightarrow> Movie list \<Rightarrow> Movie list" where
  "bulkPut items table = foldl (\<lambda>t x. put x t) table items"

definition count :: "Movie list \<Rightarrow> nat" where
  "count table = length table"

definition toArray :: "SelectedTable \<Rightarrow> Selected list" where
  "toArray t = rows t"

definition add :: "string \<Rightarrow> string \<Rightarrow> int \<Rightarrow> SelectedTable \<Rightarrow> SelectedTable" where
  "add r t y tab =
     tab\<lparr>rows := rows tab @
           [\<lparr>Selected.id' = nextKey tab, refId = r, Selected.title = t, Selected.year = y\<rparr>],
         nextKey := nextKey tab + 1\<rparr>"

definition delete_where_refId :: "string \<Rightarrow> SelectedTable \<Rightarrow> SelectedTable" where
  "delete_where_refId r tab = tab\<lparr>rows := filter (\<lambda>s. refId s \<noteq> r) (rows tab)\<rparr>"

definition clear :: "SelectedTable \<Rightarrow> SelectedTable" where
  "clear tab = tab\<lparr>rows := []\<rparr>"

section \<open>Selection\<close>

text \<open>
  \<^verbatim>\<open>toggleContentSelection\<close>: the rows are read, and the item's rows are deleted when
  one of them has this \<^verbatim>\<open>refId\<close>, else a row is added. \<^verbatim>\<open>reset\<close> clears the table.
  Both also redraw the page, which is not part of the store.
\<close>

definition toggleContentSelection :: "Database \<Rightarrow> string \<Rightarrow> string \<Rightarrow> int \<Rightarrow> Database" where
  "toggleContentSelection db contentId contentTitle contentYear =
     (let selectedContent = toArray (selected db);
          isSelected = list_ex (\<lambda>selectedItem. refId selectedItem = contentId) selectedContent
      in if isSelected
         then db\<lparr>selected := delete_where_refId contentId (selected db)\<rparr>
         else db\<lparr>selected := add contentId contentTitle contentYear (selected db)\<rparr>)"

definition reset :: "Database \<Rightarrow> Database" where
  "reset db = db\<lparr>selected := clear (selected db)\<rparr>"

text \<open>The membership test of \<^verbatim>\<open>createContentCard\<close> and of the toggle.\<close>

definition isSelected :: "Database \<Rightarrow> string \<Rightarrow> bool" where
  "isSelected db contentId =
     list_ex (\<lambda>selectedItem. refId selectedItem = contentId) (toArray (selected db))"

text \<open>
  The states of the store a user reaches from an empty selection by clicking cards and the
  reset button.
\<close>

inductive reachable :: "Database \<Rightarrow> bool" where
  start: "rows (selected db) = [] \<Longrightarrow> reachable db"
| toggle: "reachable db \<Longrightarrow> reachable (toggleContentSelection db contentId contentTitle contentYear)"
| cleared: "reachable db \<Longrightarrow> reachable (reset db)"

section \<open>Sorting an array\<close>

text \<open>
  \<^verbatim>\<open>Array.prototype.sort\<close> with a comparator. The language reads a comparator's NaN as
  \<open>+0\<close> (\<open>SortCompare\<close>) and sorts stably. Insertion from the right, each element going
  before the first one it does not have to follow, is a stable sort; for a comparator that
  is consistent on the elements every stable sort returns the same array, and the claims
  below are about such comparators. \<open>minus_number\<close> is the subtraction of the
  comparators, \<open>ToNumber\<close> the conversion of an optional field: \<^verbatim>\<open>undefined\<close> gives NaN.
\<close>

definition ToNumber :: "rat option \<Rightarrow> number" where
  "ToNumber v = (case v of None \<Rightarrow> NaN | Some x \<Rightarrow> Num x)"

fun minus_number :: "number \<Rightarrow> number \<Rightarrow> number" where
  "minus_number (Num x) (Num y) = Num (x - y)"
| "minus_number _ _ = NaN"

definition SortCompare :: "('a \<Rightarrow> 'a \<Rightarrow> number) \<Rightarrow> 'a \<Rightarrow> 'a \<Rightarrow> rat" where
  "SortCompare comparefn x y = (case comparefn x y of NaN \<Rightarrow> 0 | Num v \<Rightarrow> v)"

fun insert_sorted :: "('a \<Rightarrow> 'a \<Rightarrow> number) \<Rightarrow> 'a \<Rightarrow> 'a list \<Rightarrow> 'a list" where
  "insert_sorted comparefn x [] = [x]"
| "insert_sorted comparefn x (y # ys) =
     (if SortCompare comparefn x y \<le> 0 then x # y # ys
      else y # insert_sorted comparefn x ys)"

definition Array_sort :: "('a \<Rightarrow> 'a \<Rightarrow> number) \<Rightarrow> 'a list \<Rightarrow> 'a list" where
  "Array_sort comparefn xs = foldr (insert_sorted comparefn) xs []"

text \<open>The order \<^verbatim>\<open>sort()\<close> uses when it is given no comparator: strings by code units.\<close>

definition default_compare :: "string \<Rightarrow> string \<Rightarrow> number" where
  "default_compare x y = Num (if x < y then - 1 else if y < x then 1 else 0)"

text \<open>
  A comparator is consistent on a set when the relation "need not follow" it induces there
  is total and transitive.
\<close>

definition consistent_on :: "'a set \<Rightarrow> ('a \<Rightarrow> 'a \<Rightarrow> number) \<Rightarrow> bool" where
  "consistent_on A comparefn \<longleftrightarrow>
     (\<forall>x\<in>A. \<forall>y\<in>A. SortCompare comparefn x y \<le> 0 \<or> SortCompare comparefn y x \<le> 0) \<and>
     (\<forall>x\<in>A. \<forall>y\<in>A. \<forall>z\<in>A. SortCompare comparefn x y \<le> 0 \<longrightarrow>
        SortCompare comparefn y z \<le> 0 \<longrightarrow> SortCompare comparefn x z \<le> 0)"

text \<open>
  What is asked of the collation \<^verbatim>\<open>localeCompare\<close>: of two strings one need not follow
  the other, and "need not follow" is transitive.
\<close>

definition collation :: "(string \<Rightarrow> string \<Rightarrow> int) \<Rightarrow> bool" where
  "collation localeCompare \<longleftrightarrow>
     (\<forall>a b. localeCompare a b \<le> 0 \<or> localeCompare b a \<le> 0) \<and>
     (\<forall>a b c. localeCompare a b \<le> 0 \<longrightarrow> localeCompare b c \<le> 0 \<longrightarrow> localeCompare a c \<le> 0)"

text \<open>The code-unit order as a collation, for examples.\<close>

definition code_unit_compare :: "string \<Rightarrow> string \<Rightarrow> int" where
  "code_unit_compare a b = (if a < b then - 1 else if b < a then 1 else 0)"

section \<open>Seeding and loading the catalog\<close>

text \<open>
  \<^verbatim>\<open>movies.json\<close> and \<^verbatim>\<open>tv-shows.json\<close> are not among the sources: the two lists are
  parameters. Each function returns the store and the requests it sent, in order.
\<close>

definition seedDatabase :: "Movie list \<Rightarrow> TvShow list \<Rightarrow> Database \<Rightarrow> Database \<times> StoreCall list" where
  "seedDatabase movieList tvShowList db =
     (db\<lparr>movies := bulkPut movieList (movies db), tvShows := bulkPut tvShowList (tvShows db)\<rparr>,
      [MoviesBulkPut, TvShowsBulkPut])"

definition initializeDatabase :: "Movie list \<Rightarrow> TvShow list \<Rightarrow> Database \<Rightarrow> Database \<times> StoreCall list" where
  "initializeDatabase movieList tvShowList db =
     (if count (movies db) = 0
      then (case seedDatabase movieList tvShowList db of (db', calls) \<Rightarrow> (db', MoviesCount # calls))
      else (db, [MoviesCount]))"

text \<open>
  \<^verbatim>\<open>localeCompare\<close> is the browser's collation, a parameter. \<^verbatim>\<open>fetchContent\<close> reads both
  catalog tables and sorts each by title; the two arrays are its \<^verbatim>\<open>movies\<close> and
  \<^verbatim>\<open>tvShows\<close>.
\<close>

definition title_compare :: "(string \<Rightarrow> string \<Rightarrow> int) \<Rightarrow> Movie \<Rightarrow> Movie \<Rightarrow> number" where
  "title_compare localeCompare a b = Num (of_int (localeCompare (Movie.title a) (Movie.title b)))"

definition fetchContent :: "(string \<Rightarrow> string \<Rightarrow> int) \<Rightarrow> Database \<Rightarrow> Movie list \<times> TvShow list" where
  "fetchContent localeCompare db =
     (Array_sort (title_compare localeCompare) (movies db),
      Array_sort (title_compare localeCompare) (tvShows db))"

text \<open>
  \<^verbatim>\<open>populateGenres\<close>: the options of the genre control, each a value and its text.
  \<open>Set_of\<close> is \<^verbatim>\<open>[...new Set(xs)]\<close>, which keeps the first occurrence of each element.
\<close>

definition Set_of :: "'a list \<Rightarrow> 'a list" where
  "Set_of xs = foldl (\<lambda>s x. if x \<in> set s then s else s @ [x]) [] xs"

definition populateGenres :: "Movie list \<Rightarrow> (string \<times> string) list" where
  "populateGenres content =
     (let genres = Array_sort default_compare (Set_of (concat (map Movie.genre content)))
      in ([], ''All Genres'') # map (\<lambda>genre. (genre, genre)) genres)"

section \<open>The filter and sort pipeline\<close>

text \<open>
  \<^verbatim>\<open>sortResults\<close>: one comparator, chosen by the sort option at each comparison.
\<close>

definition compareFn :: "(string \<Rightarrow> string \<Rightarrow> int) \<Rightarrow> string \<Rightarrow> FuseResult \<Rightarrow> FuseResult \<Rightarrow> number" where
  "compareFn localeCompare sortOption a b =
     (if sortOption = ''search'' then minus_number (ToNumber (score a)) (ToNumber (score b))
      else if sortOption = ''title''
        then Num (of_int (localeCompare (Movie.title (item a)) (Movie.title (item b))))
      else if sortOption = ''year'' then Num (of_int (Movie.year (item b) - Movie.year (item a)))
      else if sortOption = ''rating'' then Num (rating (item b) - rating (item a))
      else Num 0)"

definition sortResults :: "(string \<Rightarrow> string \<Rightarrow> int) \<Rightarrow> FuseResult list \<Rightarrow> string \<Rightarrow> FuseResult list" where
  "sortResults localeCompare results sortOption =
     Array_sort (compareFn localeCompare sortOption) results"

text \<open>
  \<^verbatim>\<open>toLowerCase\<close>: the letters A to Z and the capital letters from U+00C0 to U+00DE go
  to their small letters, 32 code units up; other characters stay. Only whether the query is
  empty matters below, since the index is a parameter: \<open>fuse\<close> is the \<^verbatim>\<open>search\<close> method of
  the index built by \<^verbatim>\<open>initFuse\<close>. \<open>filteredResults\<close> is \<^verbatim>\<open>filterContent\<close> up to
  its genre filter, \<open>filterResults\<close> up to its \<^verbatim>\<open>sortedResults\<close>, and \<open>filterContent\<close>
  the list it hands to \<^verbatim>\<open>displayContent\<close>. The three controls' values and the flag are
  arguments.
\<close>

definition toLowerCase :: "string \<Rightarrow> string" where
  "toLowerCase s =
     map (\<lambda>c. if (CHR ''A'' \<le> c \<and> c \<le> CHR ''Z'') \<or> (CHR 0xC0 \<le> c \<and> c \<le> CHR 0xDE \<and> c \<noteq> CHR 0xD7)
              then char_of (of_char c + (32::nat)) else c) s"

definition filteredResults ::
  "Movie list \<Rightarrow> (string \<Rightarrow> FuseResult list) \<Rightarrow> string \<Rightarrow> string \<Rightarrow> FuseResult list" where
  "filteredResults content fuse searchInput selectedGenre =
     (let searchQuery = toLowerCase searchInput;
          results = (if searchQuery \<noteq> [] then fuse searchQuery
                     else map (\<lambda>(index, item). \<lparr>item = item, refIndex = index, score = None\<rparr>)
                            (enumerate 0 content))
      in if selectedGenre \<noteq> []
         then filter (\<lambda>result. selectedGenre \<in> set (Movie.genre (item result))) results
         else results)"

definition filterResults ::
  "(string \<Rightarrow> string \<Rightarrow> int) \<Rightarrow> Movie list \<Rightarrow> (string \<Rightarrow> FuseResult list) \<Rightarrow>
   string \<Rightarrow> string \<Rightarrow> string \<Rightarrow> bool \<Rightarrow> FuseResult list" where
  "filterResults localeCompare content fuse searchInput selectedGenre sortOption isSearch =
     (let results = filteredResults content fuse searchInput selectedGenre;
          sortOptionValue = (if isSearch then ''search'' else sortOption)
      in sortResults localeCompare results sortOptionValue)"

definition filterContent ::
  "(string \<Rightarrow> string \<Rightarrow> int) \<Rightarrow> Movie list \<Rightarrow> (string \<Rightarrow> FuseResult list) \<Rightarrow>
   string \<Rightarrow> string \<Rightarrow> string \<Rightarrow> bool \<Rightarrow> Movie list" where
  "filterContent localeCompare content fuse searchInput selectedGenre sortOption isSearch =
     map item (filterResults localeCompare content fuse searchInput selectedGenre sortOption isSearch)"

section \<open>The selected box and the clipboard\<close>

text \<open>
  \<^verbatim>\<open>updateSelectedBox\<close> writes one \<^verbatim>\<open>li\<close> per selection as markup, and \<^verbatim>\<open>copyListText\<close>
  reads the text of each \<^verbatim>\<open>li\<close> back from the page: \<open>textContent\<close>, a parameter, is
  the text the browser gives an \<^verbatim>\<open>li\<close> whose markup is the argument. \<open>string_of_int\<close> is
  how a template prints an integer.
\<close>

fun string_of_nat :: "nat \<Rightarrow> string" where
  "string_of_nat n =
     (if n < 10 then [char_of (48 + n)] else string_of_nat (n div 10) @ [char_of (48 + n mod 10)])"

definition string_of_int :: "int \<Rightarrow> string" where
  "string_of_int i = (if i < 0 then CHR ''-'' # string_of_nat (nat (- i)) else string_of_nat (nat i))"

fun join :: "string \<Rightarrow> string list \<Rightarrow> string" where
  "join sep [] = []"
| "join sep [x] = x"
| "join sep (x # y # ys) = x @ sep @ join sep (y # ys)"

definition updateSelectedBox :: "(string \<Rightarrow> string) \<Rightarrow> Selected list \<Rightarrow> SelectedBox" where
  "updateSelectedBox textContent selectedContent =
     (if selectedContent \<noteq> []
      then \<lparr>heading = ''Selected'', copyBtn = True,
            li = map (\<lambda>content. textContent
                       (Selected.title content @ '' ('' @ string_of_int (Selected.year content) @ '')''))
                   selectedContent\<rparr>
      else \<lparr>heading = ''Nothing selected'', copyBtn = False, li = []\<rparr>)"

definition copyListText :: "SelectedBox \<Rightarrow> string" where
  "copyListText box = join [CHR 0x0A] (li box)"

section \<open>The ingestion utility (src/unnamed/part_000, src/gen-tv.ts)\<close>

text \<open>
  The movie generator; the one for shows differs in its directory names and in the name of
  the id field. \<open>JsonData\<close> is one parsed metadata file, each field already read the way
  \<^verbatim>\<open>processNfoFiles\<close> reads it (first element, \<^verbatim>\<open>Number\<close> of it for the numeric ones). A
  file without actors gives no \<^verbatim>\<open>actors\<close> field, written here as the empty list. The
  parameters \<^verbatim>\<open>title\<close> and \<^verbatim>\<open>year\<close> of the functions are written \<open>title'\<close> and \<open>year'\<close>.
\<close>

record JsonData =
  id' :: string
  title :: string
  year :: int
  plot :: string
  thumb :: string
  runtime :: int
  premiered :: string
  genre :: "string list"
  tag :: "string list option"
  ratings :: rat
  actor :: "string list"






















section \<open>Example data\<close>

text \<open>A catalog entry with the fields the pipeline reads, and a store with nothing in it.\<close>

definition entry :: "string \<Rightarrow> string \<Rightarrow> int \<Rightarrow> string list \<Rightarrow> rat \<Rightarrow> Movie" where
  "entry i t y g r =
     \<lparr>Movie.id' = i, Movie.title = t, Movie.year = y, description = [], image = None,
      Movie.runtime = 0, Movie.premiered = [], Movie.genre = g, Movie.tag = None, rating = r,
      actors = []\<rparr>"

definition dune :: Movie where
  "dune = entry ''tt1160419'' ''Dune'' 2021 [''Science Fiction'', ''Adventure''] (78 / 10)"

definition arrival :: Movie where
  "arrival = entry ''tt2543164'' ''Arrival'' 2016 [''Drama'', ''Science Fiction''] (76 / 10)"

definition heat :: Movie where
  "heat = entry ''tt0113277'' ''Heat'' 1995 [''Crime'', ''Drama''] (79 / 10)"

definition empty_store :: Database where
  "empty_store = \<lparr>movies = [], tvShows = [], selected = \<lparr>rows = [], nextKey = 1\<rparr>\<rparr>"

definition three_results :: "FuseResult list" where
  "three_results =
     [\<lparr>item = heat, refIndex = 0, score = None\<rparr>,
      \<lparr>item = dune, refIndex = 1, score = None\<rparr>,
      \<lparr>item = arrival, refIndex = 2, score = None\<rparr>]"

text \<open>An index that answers every query with two scored results, the better one last.\<close>

definition two_matches :: "string \<Rightarrow> FuseResult list" where
  "two_matches q =
     [\<lparr>item = dune, refIndex = 1, score = Some (3 / 10)\<rparr>,
      \<lparr>item = arrival, refIndex = 0, score = Some (1 / 10)\<rparr>]"

text \<open>
  An index as \<^verbatim>\<open>initFuse\<close> builds it: it returns its results without their score, in
  ascending order of the score it gave them, which is \<open>match_score\<close>.
\<close>

definition unscored_matches :: "string \<Rightarrow> FuseResult list" where
  "unscored_matches q =
     [\<lparr>item = arrival, refIndex = 0, score = None\<rparr>,
      \<lparr>item = dune, refIndex = 1, score = None\<rparr>]"

definition match_score :: "string \<Rightarrow> FuseResult \<Rightarrow> rat" where
  "match_score q r = (if refIndex r = 0 then 1 / 10 else 3 / 10)"








section \<open>Selection: proofs\<close>

lemma isSelected_iff: "isSelected db r \<longleftrightarrow> r \<in> refId ` set (rows (selected db))"
  by (auto simp: isSelected_def toArray_def list_ex_iff)

lemma isSelected_toggle: "isSelected (toggleContentSelection db r t y) r \<longleftrightarrow> \<not> isSelected db r"
  by (auto simp: isSelected_iff toggleContentSelection_def Let_def toArray_def list_ex_iff
      add_def delete_where_refId_def)

lemma distinct_toggle:
  assumes "distinct (map refId (rows (selected db)))"
  shows "distinct (map refId (rows (selected (toggleContentSelection db r t y))))"
proof (cases "isSelected db r")
  case True
  then show ?thesis
    using assms
    by (simp add: isSelected_def toggleContentSelection_def delete_where_refId_def distinct_map_filter)
next
  case False
  then have "r \<notin> refId ` set (rows (selected db))"
    by (simp add: isSelected_iff)
  with False show ?thesis
    using assms
    by (simp add: isSelected_def toggleContentSelection_def add_def)
qed

lemma reachable_distinct: "reachable db \<Longrightarrow> distinct (map refId (rows (selected db)))"
proof (induction rule: reachable.induct)
  case (start db)
  then show ?case by simp
next
  case (toggle db contentId contentTitle contentYear)
  from toggle.IH show ?case by (rule distinct_toggle)
next
  case (cleared db)
  show ?case by (simp add: reset_def clear_def)
qed

lemma distinct_filter_le_one: "distinct (map f xs) \<Longrightarrow> length (filter (\<lambda>x. f x = k) xs) \<le> 1"
proof (induction xs)
  case Nil
  show ?case by simp
next
  case (Cons a xs)
  show ?case
  proof (cases "f a = k")
    case True
    with Cons.prems have "k \<notin> f ` set xs" by auto
    then have "filter (\<lambda>x. f x = k) xs = []"
      by (auto simp: filter_empty_conv)
    with True show ?thesis by simp
  next
    case False
    with Cons show ?thesis by simp
  qed
qed

text \<open>
  C1: for every \<^verbatim>\<open>refId\<close> and every state of the selection store, two toggles of the
  item in a row leave it selected if it was selected and unselected if it was not.
\<close>

theorem toggle_twice_membership:
  "isSelected (toggleContentSelection (toggleContentSelection db r t y) r t y) r = isSelected db r"
  by (simp add: isSelected_toggle)

text \<open>
  C2: in every state reached from an empty selection store by toggles and resets, the table
  holds at most one row for each \<^verbatim>\<open>refId\<close>.
\<close>

theorem reachable_one_row_per_refId:
  "reachable db \<Longrightarrow> length (filter (\<lambda>s. refId s = r) (toArray (selected db))) \<le> 1"
  unfolding toArray_def by (rule distinct_filter_le_one) (rule reachable_distinct)

theorem reachable_one_row_per_refId_witness:
  "length (filter (\<lambda>s. refId s = ''tt1160419'')
     (toArray (selected
        (toggleContentSelection (toggleContentSelection empty_store ''tt1160419'' ''Dune'' 2021)
           ''tt2543164'' ''Arrival'' 2016)))) \<le> 1"
proof -
  have "reachable empty_store"
    by (rule reachable.start) (simp add: empty_store_def)
  then have "reachable
     (toggleContentSelection (toggleContentSelection empty_store ''tt1160419'' ''Dune'' 2021)
        ''tt2543164'' ''Arrival'' 2016)"
    by (intro reachable.toggle)
  then show ?thesis by (rule reachable_one_row_per_refId)
qed

section \<open>Sorting: proofs\<close>

lemma set_insert_sorted: "set (insert_sorted c x ys) = insert x (set ys)"
  by (induction ys) auto

lemma mset_insert_sorted: "mset (insert_sorted c x ys) = add_mset x (mset ys)"
  by (induction ys) auto

lemma Array_sort_Cons: "Array_sort c (x # xs) = insert_sorted c x (Array_sort c xs)"
  by (simp add: Array_sort_def)

lemma mset_Array_sort: "mset (Array_sort c xs) = mset xs"
  by (induction xs) (simp_all add: Array_sort_def mset_insert_sorted)

lemma set_Array_sort: "set (Array_sort c xs) = set xs"
  by (metis mset_Array_sort set_mset_mset)

lemma sorted_insert_sorted:
  assumes "consistent_on A c" "x \<in> A" "set ys \<subseteq> A"
    and "sorted_wrt (\<lambda>a b. SortCompare c a b \<le> 0) ys"
  shows "sorted_wrt (\<lambda>a b. SortCompare c a b \<le> 0) (insert_sorted c x ys)"
  using assms(3,4)
proof (induction ys)
  case Nil
  show ?case by simp
next
  case (Cons y ys)
  have tot: "\<And>u v. u \<in> A \<Longrightarrow> v \<in> A \<Longrightarrow> SortCompare c u v \<le> 0 \<or> SortCompare c v u \<le> 0"
    using assms(1) unfolding consistent_on_def by blast
  have tr: "\<And>u v w. u \<in> A \<Longrightarrow> v \<in> A \<Longrightarrow> w \<in> A \<Longrightarrow> SortCompare c u v \<le> 0 \<Longrightarrow>
      SortCompare c v w \<le> 0 \<Longrightarrow> SortCompare c u w \<le> 0"
    using assms(1) unfolding consistent_on_def by blast
  show ?case
  proof (cases "SortCompare c x y \<le> 0")
    case True
    have "\<forall>z\<in>set ys. SortCompare c x z \<le> 0"
    proof
      fix z assume z: "z \<in> set ys"
      then have "SortCompare c y z \<le> 0" using Cons.prems(2) by simp
      with True show "SortCompare c x z \<le> 0"
        using tr[of x y z] assms(2) Cons.prems(1) z by auto
    qed
    with True Cons.prems(2) show ?thesis by simp
  next
    case False
    then have yx: "SortCompare c y x \<le> 0"
      using tot[of x y] assms(2) Cons.prems(1) by auto
    have "sorted_wrt (\<lambda>a b. SortCompare c a b \<le> 0) (insert_sorted c x ys)"
      using Cons by simp
    moreover have "\<forall>z\<in>set (insert_sorted c x ys). SortCompare c y z \<le> 0"
      using yx Cons.prems(2) by (simp add: set_insert_sorted)
    ultimately show ?thesis using False by simp
  qed
qed

lemma sorted_Array_sort:
  assumes "consistent_on A c" "set xs \<subseteq> A"
  shows "sorted_wrt (\<lambda>a b. SortCompare c a b \<le> 0) (Array_sort c xs)"
  using assms(2)
proof (induction xs)
  case Nil
  show ?case by (simp add: Array_sort_def)
next
  case (Cons x xs)
  then show ?case
    using sorted_insert_sorted[OF assms(1), of x "Array_sort c xs"]
    by (simp add: Array_sort_Cons set_Array_sort)
qed

text \<open>When no element has to follow another, the array stays as it is.\<close>

lemma Array_sort_ties:
  assumes "\<forall>x\<in>set xs. \<forall>y\<in>set xs. SortCompare c x y \<le> 0"
  shows "Array_sort c xs = xs"
  using assms
proof (induction xs)
  case Nil
  show ?case by (simp add: Array_sort_def)
next
  case (Cons x xs)
  then have kept: "Array_sort c xs = xs" by simp
  show ?case
  proof (cases xs)
    case Nil
    then show ?thesis by (simp add: Array_sort_def)
  next
    case tail: (Cons y ys)
    with Cons.prems have "SortCompare c x y \<le> 0" by simp
    with tail kept show ?thesis by (simp add: Array_sort_Cons)
  qed
qed

section \<open>The pipeline: proofs\<close>

lemma collation_code_unit_compare: "collation code_unit_compare"
  unfolding collation_def code_unit_compare_def by (auto simp: not_less)

lemma SortCompare_title:
  "SortCompare (compareFn lc ''title'') a b \<le> 0 \<longleftrightarrow> lc (Movie.title (item a)) (Movie.title (item b)) \<le> 0"
  by (simp add: SortCompare_def compareFn_def)

lemma SortCompare_year:
  "SortCompare (compareFn lc ''year'') a b \<le> 0 \<longleftrightarrow> Movie.year (item b) \<le> Movie.year (item a)"
  by (simp add: SortCompare_def compareFn_def)

lemma SortCompare_rating:
  "SortCompare (compareFn lc ''rating'') a b \<le> 0 \<longleftrightarrow> rating (item b) \<le> rating (item a)"
  by (simp add: SortCompare_def compareFn_def)

lemma SortCompare_default:
  "sortOption \<notin> {''search'', ''title'', ''year'', ''rating''} \<Longrightarrow> SortCompare (compareFn lc sortOption) a b = 0"
  by (simp add: SortCompare_def compareFn_def)

lemma SortCompare_search:
  "SortCompare (compareFn lc ''search'') a b \<le> 0 \<longleftrightarrow>
     (case (score a, score b) of (Some x, Some y) \<Rightarrow> x \<le> y | _ \<Rightarrow> True)"
  by (simp add: SortCompare_def compareFn_def ToNumber_def split: option.splits)

lemma consistent_on_search:
  assumes "(\<forall>r\<in>A. score r = None) \<or> (\<forall>r\<in>A. score r \<noteq> None)"
  shows "consistent_on A (compareFn lc ''search'')"
  using assms
proof
  assume "\<forall>r\<in>A. score r = None"
  then show ?thesis
    unfolding consistent_on_def SortCompare_search by simp
next
  assume "\<forall>r\<in>A. score r \<noteq> None"
  then show ?thesis
    unfolding consistent_on_def SortCompare_search by (fastforce split: option.splits)
qed

lemma set_filteredResults:
  "toLowerCase q \<noteq> [] \<Longrightarrow> set (filteredResults content fuse q g) \<subseteq> set (fuse (toLowerCase q))"
  by (auto simp: filteredResults_def Let_def)

lemma score_filteredResults_empty:
  assumes "toLowerCase q = []"
  shows "\<forall>r\<in>set (filteredResults content fuse q g). score r = None"
  using assms by (auto simp: filteredResults_def Let_def)

text \<open>
  C3: whatever the query, the genre and the sort control, an evaluation triggered by live
  text input returns the results that pass the genre filter, none lost and none added, in
  ascending order of their match score, and the same list for every value of the sort
  control. The match
  score of a result is what the index computed for it, \<open>relevance\<close>; the index either
  attaches it to every result, and then the comparator sorts by it, or attaches it to none
  and returns its results in ascending score, as the index built by \<^verbatim>\<open>initFuse\<close> does, and
  then every comparison is a tie and the order of the index is kept. With the empty query
  there is no score, and the catalog's items come in the catalog's order.
\<close>

theorem live_input_orders_by_score:
  assumes "(\<forall>r\<in>set (fuse (toLowerCase searchInput)).
              score r = Some (relevance (toLowerCase searchInput) r)) \<or>
           ((\<forall>r\<in>set (fuse (toLowerCase searchInput)). score r = None) \<and>
            sorted (map (relevance (toLowerCase searchInput)) (fuse (toLowerCase searchInput))))"
  shows "(toLowerCase searchInput \<noteq> [] \<longrightarrow>
            sorted (map (relevance (toLowerCase searchInput))
              (filterResults localeCompare content fuse searchInput selectedGenre sortOption True))) \<and>
         mset (filterResults localeCompare content fuse searchInput selectedGenre sortOption True) =
           mset (filteredResults content fuse searchInput selectedGenre) \<and>
         filterResults localeCompare content fuse searchInput selectedGenre sortOption True =
           filterResults localeCompare content fuse searchInput selectedGenre sortOption' True \<and>
         (toLowerCase searchInput = [] \<longrightarrow>
            filterResults localeCompare content fuse searchInput selectedGenre sortOption True =
              filteredResults content fuse searchInput selectedGenre)"
proof -
  let ?q = "toLowerCase searchInput"
  let ?rs = "filteredResults content fuse searchInput selectedGenre"
  let ?out = "filterResults localeCompare content fuse searchInput selectedGenre sortOption True"
  have out: "?out = Array_sort (compareFn localeCompare ''search'') ?rs"
    by (simp add: filterResults_def sortResults_def)
  have perm: "mset ?out = mset ?rs"
    by (simp add: out mset_Array_sort)
  have indep: "?out = filterResults localeCompare content fuse searchInput selectedGenre sortOption' True"
    by (simp add: filterResults_def)
  have empty: "?q = [] \<longrightarrow> ?out = ?rs"
  proof
    assume "?q = []"
    then have "\<forall>r\<in>set ?rs. score r = None"
      by (rule score_filteredResults_empty)
    then show "?out = ?rs"
      unfolding out by (intro Array_sort_ties) (simp add: SortCompare_search)
  qed
  have asc: "?q \<noteq> [] \<longrightarrow> sorted (map (relevance ?q) ?out)"
  proof
    assume ne: "?q \<noteq> []"
    then have sub: "set ?rs \<subseteq> set (fuse ?q)"
      by (rule set_filteredResults)
    from assms show "sorted (map (relevance ?q) ?out)"
    proof
      assume sc: "\<forall>r\<in>set (fuse ?q). score r = Some (relevance ?q r)"
      then have "\<forall>r\<in>set ?rs. score r \<noteq> None"
        using sub by auto
      then have "consistent_on (set ?rs) (compareFn localeCompare ''search'')"
        by (intro consistent_on_search) blast
      then have sw: "sorted_wrt (\<lambda>a b. SortCompare (compareFn localeCompare ''search'') a b \<le> 0) ?out"
        unfolding out by (rule sorted_Array_sort) simp
      have scored: "\<forall>r\<in>set ?out. score r = Some (relevance ?q r)"
        using sc sub by (auto simp: out set_Array_sort)
      have "sorted_wrt (\<lambda>a b. relevance ?q a \<le> relevance ?q b) ?out"
      proof (rule sorted_wrt_mono_rel[OF _ sw])
        fix a b
        assume "a \<in> set ?out" "b \<in> set ?out"
          and "SortCompare (compareFn localeCompare ''search'') a b \<le> 0"
        with scored show "relevance ?q a \<le> relevance ?q b"
          by (simp add: SortCompare_search)
      qed
      then show ?thesis
        by (simp add: sorted_map)
    next
      assume un: "(\<forall>r\<in>set (fuse ?q). score r = None) \<and> sorted (map (relevance ?q) (fuse ?q))"
      then have "\<forall>r\<in>set ?rs. score r = None"
        using sub by auto
      then have "?out = ?rs"
        unfolding out by (intro Array_sort_ties) (simp add: SortCompare_search)
      moreover have "sorted (map (relevance ?q) ?rs)"
        using un ne by (simp add: filteredResults_def Let_def sorted_filter)
      ultimately show ?thesis
        by simp
    qed
  qed
  show ?thesis
    using asc perm indep empty by blast
qed

text \<open>
  The index returns Arrival before Dune; the sort control is at \<^verbatim>\<open>year\<close>, which would put
  Dune first.
\<close>

theorem live_input_orders_by_score_witness:
  "sorted (map (match_score (toLowerCase ''A''))
     (filterResults code_unit_compare [arrival, dune, heat] unscored_matches ''A'' [] ''year'' True)) \<and>
   mset (filterResults code_unit_compare [arrival, dune, heat] unscored_matches ''A'' [] ''year'' True) =
     mset (filteredResults [arrival, dune, heat] unscored_matches ''A'' []) \<and>
   filterResults code_unit_compare [arrival, dune, heat] unscored_matches ''A'' [] ''year'' True =
     filterResults code_unit_compare [arrival, dune, heat] unscored_matches ''A'' [] ''title'' True"
proof -
  have index: "(\<forall>r\<in>set (unscored_matches (toLowerCase ''A'')).
              score r = Some (match_score (toLowerCase ''A'') r)) \<or>
           ((\<forall>r\<in>set (unscored_matches (toLowerCase ''A'')). score r = None) \<and>
            sorted (map (match_score (toLowerCase ''A'')) (unscored_matches (toLowerCase ''A''))))"
    by (simp add: unscored_matches_def match_score_def)
  have query: "toLowerCase ''A'' \<noteq> []"
    by (simp add: toLowerCase_def)
  from live_input_orders_by_score[where fuse = unscored_matches and searchInput = "''A''"
      and relevance = match_score and localeCompare = code_unit_compare
      and content = "[arrival, dune, heat]" and selectedGenre = "[]" and sortOption = "''year''"
      and sortOption' = "''title''", OF index] query
  show ?thesis by blast
qed

text \<open>
  C4: for every input list and every key the output holds the items of the input, each as
  often as the input does. Sorting by year leaves every pair in output order, and so every
  adjacent pair, with the earlier year not below the later; by rating likewise; by title
  with the earlier title not after the later in the collation; and under \<^verbatim>\<open>none\<close> or any
  key the comparator does not know the list is returned as it is.
\<close>

theorem sortResults_order:
  "mset (sortResults localeCompare results sortOption) = mset results \<and>
   sorted_wrt (\<lambda>a b. Movie.year (item a) \<ge> Movie.year (item b)) (sortResults localeCompare results ''year'') \<and>
   sorted_wrt (\<lambda>a b. rating (item a) \<ge> rating (item b)) (sortResults localeCompare results ''rating'') \<and>
   (collation localeCompare \<longrightarrow>
      sorted_wrt (\<lambda>a b. localeCompare (Movie.title (item a)) (Movie.title (item b)) \<le> 0)
        (sortResults localeCompare results ''title'')) \<and>
   (sortOption \<notin> {''search'', ''title'', ''year'', ''rating''} \<longrightarrow>
      sortResults localeCompare results sortOption = results)"
proof (intro conjI impI)
  show "mset (sortResults localeCompare results sortOption) = mset results"
    by (simp add: sortResults_def mset_Array_sort)
next
  have "consistent_on UNIV (compareFn localeCompare ''year'')"
    unfolding consistent_on_def SortCompare_year by auto
  then show "sorted_wrt (\<lambda>a b. Movie.year (item a) \<ge> Movie.year (item b)) (sortResults localeCompare results ''year'')"
    using sorted_Array_sort[of UNIV "compareFn localeCompare ''year''" results]
    by (simp add: sortResults_def SortCompare_year)
next
  have "consistent_on UNIV (compareFn localeCompare ''rating'')"
    unfolding consistent_on_def SortCompare_rating by auto
  then show "sorted_wrt (\<lambda>a b. rating (item a) \<ge> rating (item b)) (sortResults localeCompare results ''rating'')"
    using sorted_Array_sort[of UNIV "compareFn localeCompare ''rating''" results]
    by (simp add: sortResults_def SortCompare_rating)
next
  assume c: "collation localeCompare"
  have "consistent_on UNIV (compareFn localeCompare ''title'')"
    unfolding consistent_on_def SortCompare_title
    using c unfolding collation_def by blast
  then show "sorted_wrt (\<lambda>a b. localeCompare (Movie.title (item a)) (Movie.title (item b)) \<le> 0)
        (sortResults localeCompare results ''title'')"
    using sorted_Array_sort[of UNIV "compareFn localeCompare ''title''" results]
    by (simp add: sortResults_def SortCompare_title)
next
  assume "sortOption \<notin> {''search'', ''title'', ''year'', ''rating''}"
  then show "sortResults localeCompare results sortOption = results"
    unfolding sortResults_def by (intro Array_sort_ties) (simp add: SortCompare_default)
qed

theorem sortResults_order_witness:
  "mset (sortResults code_unit_compare three_results ''none'') = mset three_results \<and>
   sorted_wrt (\<lambda>a b. Movie.year (item a) \<ge> Movie.year (item b))
     (sortResults code_unit_compare three_results ''year'') \<and>
   sorted_wrt (\<lambda>a b. rating (item a) \<ge> rating (item b))
     (sortResults code_unit_compare three_results ''rating'') \<and>
   sorted_wrt (\<lambda>a b. code_unit_compare (Movie.title (item a)) (Movie.title (item b)) \<le> 0)
     (sortResults code_unit_compare three_results ''title'') \<and>
   sortResults code_unit_compare three_results ''none'' = three_results"
proof -
  have "''none'' \<notin> {''search'', ''title'', ''year'', ''rating''}"
    by simp
  with sortResults_order[of code_unit_compare three_results "''none''"] collation_code_unit_compare
  show ?thesis by blast
qed

section \<open>The catalog: proofs\<close>

lemma ids_put: "Movie.id' ` set (put x t) = insert (Movie.id' x) (Movie.id' ` set t)"
  by (induction t) auto

lemma mset_put_new: "Movie.id' x \<notin> Movie.id' ` set t \<Longrightarrow> mset (put x t) = add_mset x (mset t)"
  by (induction t) auto

lemma mset_bulkPut_new:
  assumes "distinct (map Movie.id' xs)" "Movie.id' ` set xs \<inter> Movie.id' ` set t = {}"
  shows "mset (bulkPut xs t) = mset t + mset xs"
  using assms
proof (induction xs arbitrary: t)
  case Nil
  show ?case by (simp add: bulkPut_def)
next
  case (Cons x xs)
  have new: "Movie.id' x \<notin> Movie.id' ` set t"
    using Cons.prems(2) by auto
  have "Movie.id' ` set xs \<inter> Movie.id' ` set (put x t) = {}"
    using Cons.prems by (auto simp: ids_put)
  with Cons have "mset (bulkPut xs (put x t)) = mset (put x t) + mset xs"
    by simp
  with new show ?case
    by (simp add: bulkPut_def mset_put_new)
qed

lemma toLowerCase_Nil: "toLowerCase [] = []"
  by (simp add: toLowerCase_def)

lemma map_item_enumerate:
  "map item (map (\<lambda>(index, item). \<lparr>item = item, refIndex = index, score = None\<rparr>) (enumerate n xs)) = xs"
  by (induction xs arbitrary: n) auto

lemma filterContent_passthrough:
  assumes "sortOption \<notin> {''search'', ''title'', ''year'', ''rating''}"
  shows "filterContent lc content fuse [] [] sortOption False = content"
proof -
  have "sortResults lc (filteredResults content fuse [] []) sortOption = filteredResults content fuse [] []"
    using assms unfolding sortResults_def by (intro Array_sort_ties) (simp add: SortCompare_default)
  moreover have "map item (filteredResults content fuse [] []) = content"
    using map_item_enumerate[of 0 content]
    by (simp add: filteredResults_def toLowerCase_Nil)
  ultimately show ?thesis
    by (simp add: filterContent_def filterResults_def)
qed

lemma sorted_fetchContent:
  assumes "collation lc"
  shows "sorted_wrt (\<lambda>a b. lc (Movie.title a) (Movie.title b) \<le> 0) (fst (fetchContent lc db))"
proof -
  have sc: "\<And>a b. SortCompare (title_compare lc) a b \<le> 0 \<longleftrightarrow> lc (Movie.title a) (Movie.title b) \<le> 0"
    by (simp add: SortCompare_def title_compare_def)
  have "consistent_on UNIV (title_compare lc)"
    unfolding consistent_on_def sc using assms unfolding collation_def by blast
  then show ?thesis
    using sorted_Array_sort[of UNIV "title_compare lc" "movies db"]
    by (simp add: fetchContent_def sc)
qed

text \<open>
  C5: with an empty query, no genre, the sort control at \<^verbatim>\<open>none\<close> and no live input, the
  pipeline returns the catalog as it was loaded: on a store seeded from a bundled list whose
  ids are all different, exactly the items of that list, none dropped and none twice, in
  the order of their titles.
\<close>

theorem empty_query_passthrough:
  assumes "collation localeCompare" and "distinct (map Movie.id' movieList)" and "movies db = []"
  shows "filterContent localeCompare
           (fst (fetchContent localeCompare (fst (initializeDatabase movieList tvShowList db))))
           fuse [] [] ''none'' False =
         fst (fetchContent localeCompare (fst (initializeDatabase movieList tvShowList db))) \<and>
         mset (fst (fetchContent localeCompare (fst (initializeDatabase movieList tvShowList db)))) =
           mset movieList \<and>
         sorted_wrt (\<lambda>a b. localeCompare (Movie.title a) (Movie.title b) \<le> 0)
           (fst (fetchContent localeCompare (fst (initializeDatabase movieList tvShowList db))))"
proof (intro conjI)
  show "filterContent localeCompare
           (fst (fetchContent localeCompare (fst (initializeDatabase movieList tvShowList db))))
           fuse [] [] ''none'' False =
         fst (fetchContent localeCompare (fst (initializeDatabase movieList tvShowList db)))"
    by (rule filterContent_passthrough) simp
next
  have "movies (fst (initializeDatabase movieList tvShowList db)) = bulkPut movieList []"
    using assms(3) by (simp add: initializeDatabase_def seedDatabase_def count_def)
  moreover have "mset (bulkPut movieList []) = mset movieList"
    using mset_bulkPut_new[of movieList "[]"] assms(2) by simp
  ultimately show "mset (fst (fetchContent localeCompare (fst (initializeDatabase movieList tvShowList db)))) =
           mset movieList"
    by (simp add: fetchContent_def mset_Array_sort)
next
  show "sorted_wrt (\<lambda>a b. localeCompare (Movie.title a) (Movie.title b) \<le> 0)
           (fst (fetchContent localeCompare (fst (initializeDatabase movieList tvShowList db))))"
    using assms(1) by (rule sorted_fetchContent)
qed

theorem empty_query_passthrough_witness:
  "filterContent code_unit_compare
     (fst (fetchContent code_unit_compare (fst (initializeDatabase [heat, dune, arrival] [] empty_store))))
     two_matches [] [] ''none'' False =
   fst (fetchContent code_unit_compare (fst (initializeDatabase [heat, dune, arrival] [] empty_store))) \<and>
   mset (fst (fetchContent code_unit_compare (fst (initializeDatabase [heat, dune, arrival] [] empty_store)))) =
     mset [heat, dune, arrival] \<and>
   sorted_wrt (\<lambda>a b. code_unit_compare (Movie.title a) (Movie.title b) \<le> 0)
     (fst (fetchContent code_unit_compare (fst (initializeDatabase [heat, dune, arrival] [] empty_store))))"
proof -
  have ids: "distinct (map Movie.id' [heat, dune, arrival])"
    by (simp add: heat_def dune_def arrival_def entry_def)
  have fresh: "movies empty_store = []"
    by (simp add: empty_store_def)
  show ?thesis
    by (rule empty_query_passthrough[OF collation_code_unit_compare ids fresh])
qed

lemma set_Set_of_aux:
  "set (foldl (\<lambda>s x. if x \<in> set s then s else s @ [x]) acc xs) = set acc \<union> set xs"
  by (induction xs arbitrary: acc) auto

lemma distinct_Set_of_aux:
  "distinct acc \<Longrightarrow> distinct (foldl (\<lambda>s x. if x \<in> set s then s else s @ [x]) acc xs)"
  by (induction xs arbitrary: acc) auto

lemma set_Set_of: "set (Set_of xs) = set xs"
  by (simp add: Set_of_def set_Set_of_aux)

lemma distinct_Set_of: "distinct (Set_of xs)"
  by (simp add: Set_of_def distinct_Set_of_aux)

lemma SortCompare_default_compare: "SortCompare default_compare x y \<le> 0 \<longleftrightarrow> x \<le> y"
  by (auto simp: SortCompare_def default_compare_def)

lemma sorted_default: "sorted (Array_sort default_compare xs)"
proof -
  have "consistent_on UNIV default_compare"
    unfolding consistent_on_def SortCompare_default_compare by auto
  then show ?thesis
    using sorted_Array_sort[of UNIV default_compare xs]
    by (simp add: SortCompare_default_compare)
qed

lemma distinct_Array_sort: "distinct (Array_sort c xs) \<longleftrightarrow> distinct xs"
  using mset_Array_sort[of c xs] by (rule mset_eq_imp_distinct_iff)

text \<open>
  C9: the options of the genre control are the entry for all genres followed by one option
  for each genre label that occurs in some item of the catalog, each label once, in
  ascending order.
\<close>

theorem genre_options:
  "populateGenres content =
     ([], ''All Genres'') # map (\<lambda>g. (g, g)) (map fst (tl (populateGenres content))) \<and>
   sorted (map fst (tl (populateGenres content))) \<and>
   distinct (map fst (tl (populateGenres content))) \<and>
   set (map fst (tl (populateGenres content))) = (\<Union>m\<in>set content. set (Movie.genre m))"
proof -
  have opts: "map fst (tl (populateGenres content)) =
      Array_sort default_compare (Set_of (concat (map Movie.genre content)))"
    by (simp add: populateGenres_def Let_def comp_def)
  show ?thesis
    unfolding opts
    by (simp add: sorted_default distinct_Array_sort distinct_Set_of set_Array_sort set_Set_of
        populateGenres_def Let_def)
qed

text \<open>
  C10: the store is seeded, both collections, exactly when the movies collection is empty.
  The only count that is asked for is that of the movies, the requests are the same
  whatever the shows collection holds, and a store with movies and without shows is left as
  it is.
\<close>

theorem seeding_gated_on_movies:
  "((MoviesBulkPut \<in> set (snd (initializeDatabase movieList tvShowList db)) \<and>
     TvShowsBulkPut \<in> set (snd (initializeDatabase movieList tvShowList db))) \<longleftrightarrow>
      count (movies db) = 0) \<and>
   TvShowsCount \<notin> set (snd (initializeDatabase movieList tvShowList db)) \<and>
   snd (initializeDatabase movieList tvShowList (db\<lparr>tvShows := shows\<rparr>)) =
     snd (initializeDatabase movieList tvShowList db) \<and>
   (count (movies db) = 0 \<longrightarrow>
      fst (initializeDatabase movieList tvShowList db) =
        db\<lparr>movies := bulkPut movieList (movies db), tvShows := bulkPut tvShowList (tvShows db)\<rparr>) \<and>
   (count (movies db) \<noteq> 0 \<longrightarrow> initializeDatabase movieList tvShowList db = (db, [MoviesCount])) \<and>
   (count (movies db) \<noteq> 0 \<and> count (tvShows db) = 0 \<longrightarrow>
      tvShows (fst (initializeDatabase movieList tvShowList db)) = [])"
  by (simp add: initializeDatabase_def seedDatabase_def count_def)

theorem seeding_gated_on_movies_witness:
  "fst (initializeDatabase [dune] [heat] empty_store) =
     empty_store\<lparr>movies := bulkPut [dune] (movies empty_store),
                 tvShows := bulkPut [heat] (tvShows empty_store)\<rparr> \<and>
   initializeDatabase [heat] [arrival] (empty_store\<lparr>movies := [dune]\<rparr>) =
     (empty_store\<lparr>movies := [dune]\<rparr>, [MoviesCount])"
proof -
  have "count (movies empty_store) = 0"
    by (simp add: count_def empty_store_def)
  moreover have "count (movies (empty_store\<lparr>movies := [dune]\<rparr>)) \<noteq> 0"
    by (simp add: count_def)
  ultimately show ?thesis
    using seeding_gated_on_movies[of "[dune]" "[heat]" empty_store "[]"]
      seeding_gated_on_movies[of "[heat]" "[arrival]" "empty_store\<lparr>movies := [dune]\<rparr>" "[]"]
    by blast
qed

section \<open>The clipboard: proofs\<close>

text \<open>
  C6: the copied text is the lines \<^verbatim>\<open>title (year)\<close> of the selections, joined by line
  breaks, in the order of the table, where a new selection is the last row; this for
  selections whose line the page shows as it was written. Selecting Dune (2021) and then
  Arrival (2016) gives the two lines in that order.
\<close>

theorem clipboard_export:
  "((\<forall>c\<in>set selectedContent.
       textContent (Selected.title c @ '' ('' @ string_of_int (Selected.year c) @ '')'') =
         Selected.title c @ '' ('' @ string_of_int (Selected.year c) @ '')'') \<longrightarrow>
    copyListText (updateSelectedBox textContent selectedContent) =
      join [CHR 0x0A]
        (map (\<lambda>c. Selected.title c @ '' ('' @ string_of_int (Selected.year c) @ '')'') selectedContent)) \<and>
   (\<not> isSelected db r \<longrightarrow>
      toArray (selected (toggleContentSelection db r t y)) =
        toArray (selected db) @
          [\<lparr>Selected.id' = nextKey (selected db), refId = r, Selected.title = t, Selected.year = y\<rparr>])"
proof (intro conjI impI)
  assume "\<forall>c\<in>set selectedContent.
       textContent (Selected.title c @ '' ('' @ string_of_int (Selected.year c) @ '')'') =
         Selected.title c @ '' ('' @ string_of_int (Selected.year c) @ '')''"
  then have "map (\<lambda>c. textContent (Selected.title c @ '' ('' @ string_of_int (Selected.year c) @ '')'')) selectedContent
      = map (\<lambda>c. Selected.title c @ '' ('' @ string_of_int (Selected.year c) @ '')'') selectedContent"
    by (intro map_cong) simp_all
  moreover have "li (updateSelectedBox textContent selectedContent) =
      map (\<lambda>c. textContent (Selected.title c @ '' ('' @ string_of_int (Selected.year c) @ '')'')) selectedContent"
    by (simp add: updateSelectedBox_def)
  ultimately show "copyListText (updateSelectedBox textContent selectedContent) =
      join [CHR 0x0A]
        (map (\<lambda>c. Selected.title c @ '' ('' @ string_of_int (Selected.year c) @ '')'') selectedContent)"
    by (simp only: copyListText_def)
next
  assume "\<not> isSelected db r"
  then show "toArray (selected (toggleContentSelection db r t y)) =
        toArray (selected db) @
          [\<lparr>Selected.id' = nextKey (selected db), refId = r, Selected.title = t, Selected.year = y\<rparr>]"
    by (simp add: isSelected_def toggleContentSelection_def add_def toArray_def)
qed

theorem clipboard_export_witness:
  "copyListText (updateSelectedBox (\<lambda>markup. markup)
     (toArray (selected
        (toggleContentSelection (toggleContentSelection empty_store ''tt1160419'' ''Dune'' 2021)
           ''tt2543164'' ''Arrival'' 2016)))) =
   ''Dune (2021)\<newline>Arrival (2016)''"
proof -
  let ?sel = "toArray (selected
        (toggleContentSelection (toggleContentSelection empty_store ''tt1160419'' ''Dune'' 2021)
           ''tt2543164'' ''Arrival'' 2016))"
  have "copyListText (updateSelectedBox (\<lambda>markup. markup) ?sel) =
      join [CHR 0x0A]
        (map (\<lambda>c. Selected.title c @ '' ('' @ string_of_int (Selected.year c) @ '')'') ?sel)"
    using clipboard_export[of ?sel "\<lambda>markup. markup"] by simp
  also have "\<dots> = ''Dune (2021)\<newline>Arrival (2016)''"
    by code_simp
  finally show ?thesis .
qed

section \<open>The ingestion utility: proofs\<close>














end
